theory Spec2Isabelle
  imports Main "HOL-Library.Word"
begin

unbundle bit_operations_syntax

section \<open>The OAuth credential lifecycle of safe-gmail-mcp (src/auth/oauth.js)\<close>

text \<open>
  The module has three exported operations, \<open>loadOAuthClient\<close>, \<open>authenticate\<close> and
  \<open>refreshIfNeeded\<close>, and two private helpers, \<open>findAvailablePort\<close> and
  \<open>isPortAvailable\<close>. Everything the JavaScript reaches outside the module (the clock,
  the file system, the TCP ports, the OAuth client library, the event loop) is made an
  explicit argument or an explicit piece of state below. \<open>loadOAuthClient\<close> (reading the
  key file and building the client) takes no part in the properties below and is left
  out, apart from the port search it starts.
\<close>

subsection \<open>JavaScript values\<close>

text \<open>
  A property that may be \<open>undefined\<close> or \<open>null\<close> is an \<open>option\<close>. The conditions of the
  source use JavaScript truthiness: \<open>undefined\<close>, \<open>null\<close>, the empty string and the number
  \<open>0\<close> are falsy.
\<close>

definition truthy_string :: "string option \<Rightarrow> bool" where
  "truthy_string v = (case v of None \<Rightarrow> False | Some s \<Rightarrow> s \<noteq> [])"

definition truthy_number :: "int option \<Rightarrow> bool" where
  "truthy_number v = (case v of None \<Rightarrow> False | Some n \<Rightarrow> n \<noteq> 0)"

text \<open>\<open>String.prototype.startsWith\<close>.\<close>

definition startsWith :: "string \<Rightarrow> string \<Rightarrow> bool" where
  "startsWith s p = (take (length p) s = p)"

text \<open>
  \<open>String.prototype.lastIndexOf\<close> for a one-character needle: the index of the last
  occurrence, or \<open>-1\<close>.
\<close>

fun lastIndexOf :: "string \<Rightarrow> char \<Rightarrow> int" where
  "lastIndexOf [] c = -1"
| "lastIndexOf (x # xs) c =
     (let r = lastIndexOf xs c
      in if 0 \<le> r then r + 1 else if x = c then 0 else -1)"

text \<open>
  \<open>s.substring(0, e)\<close>: a negative end counts as \<open>0\<close>, an end beyond the string as its
  length.
\<close>

definition substring0 :: "string \<Rightarrow> int \<Rightarrow> string" where
  "substring0 s e = take (nat e) s"

subsection \<open>The callback URL\<close>

text \<open>
  \<open>new URL(req.url, `http://localhost:${port}`)\<close> followed by \<open>url.searchParams.get(name)\<close>.
  The request target starts with \<open>/\<close> whenever this code is reached, so the URL parser
  takes the text up to the first \<open>?\<close> or \<open>#\<close> as the path and the text between the first
  \<open>?\<close> and the first \<open>#\<close> as the query. The query is read as
  \<open>application/x-www-form-urlencoded\<close>: split at \<open>&\<close>, empty pieces dropped, each piece cut
  at its first \<open>=\<close>, \<open>+\<close> turned into a space, \<open>%HH\<close> decoded to a byte. \<open>get\<close> returns the
  value of the first pair with the name, or \<open>null\<close>. Strings are byte strings here: the
  replacement of byte sequences that are not UTF-8 is not modelled.
\<close>

definition url_pathname :: "string \<Rightarrow> string" where
  "url_pathname u = takeWhile (\<lambda>c. c \<noteq> CHR ''?'' \<and> c \<noteq> CHR ''#'') u"

definition url_search :: "string \<Rightarrow> string" where
  "url_search u =
     drop 1 (dropWhile (\<lambda>c. c \<noteq> CHR ''?'') (takeWhile (\<lambda>c. c \<noteq> CHR ''#'') u))"

fun split_on :: "char \<Rightarrow> string \<Rightarrow> string list" where
  "split_on d [] = [[]]"
| "split_on d (c # cs) =
     (if c = d then [] # split_on d cs
      else (case split_on d cs of [] \<Rightarrow> [[c]] | w # ws \<Rightarrow> (c # w) # ws))"

definition hex_digit :: "char \<Rightarrow> nat option" where
  "hex_digit c =
     (let n = of_char c :: nat
      in if 48 \<le> n \<and> n \<le> 57 then Some (n - 48)
         else if 65 \<le> n \<and> n \<le> 70 then Some (n - 55)
         else if 97 \<le> n \<and> n \<le> 102 then Some (n - 87)
         else None)"

fun percent_decode :: "string \<Rightarrow> string" where
  "percent_decode [] = []"
| "percent_decode [c] = [c]"
| "percent_decode [c, a] = [c, a]"
| "percent_decode (c # a # b # cs) =
     (case (if c = CHR ''%'' then hex_digit a else None, hex_digit b) of
        (Some h, Some l) \<Rightarrow> char_of (16 * h + l) # percent_decode cs
      | _ \<Rightarrow> c # percent_decode (a # b # cs))"

definition form_decode :: "string \<Rightarrow> string" where
  "form_decode s = percent_decode (map (\<lambda>c. if c = CHR ''+'' then CHR '' '' else c) s)"

definition parse_pair :: "string \<Rightarrow> string \<times> string" where
  "parse_pair p =
     (form_decode (takeWhile (\<lambda>c. c \<noteq> CHR ''='') p),
      form_decode (drop 1 (dropWhile (\<lambda>c. c \<noteq> CHR ''='') p)))"

definition searchParams :: "string \<Rightarrow> (string \<times> string) list" where
  "searchParams u = map parse_pair (filter (\<lambda>p. p \<noteq> []) (split_on CHR ''&'' (url_search u)))"

definition searchParams_get :: "string \<Rightarrow> string \<Rightarrow> string option" where
  "searchParams_get u name = map_of (searchParams u) name"

subsection \<open>Credential records\<close>

text \<open>
  The token object of the OAuth client library, which is also the JSON object of the
  credential file: \<open>access_token\<close>, \<open>refresh_token\<close>, \<open>expiry_date\<close> (epoch milliseconds),
  \<open>scope\<close> and \<open>token_type\<close>, each of which may be missing.
\<close>

record credentials =
  access_token :: "string option"
  refresh_token :: "string option"
  expiry_date :: "int option"
  scope :: "string option"
  token_type :: "string option"

subsection \<open>The file system\<close>

text \<open>
  The part of Node's \<open>fs\<close> the module calls, on a POSIX file system (\<open>/\<close> is the only
  separator): \<open>existsSync\<close>, \<open>mkdirSync(dir, {recursive: true})\<close> and
  \<open>writeFileSync(path, data)\<close>, both without a \<open>mode\<close> option. A file holds its data
  and its permission bits; a directory its permission bits. Paths are plain strings (no
  normalisation of \<open>.\<close>, \<open>..\<close> or doubled slashes: every file and directory is taken
  to have one spelling), and they are paths the operating system accepts (no NUL byte,
  within its length limits). \<open>JSON.stringify(tokens, null, 2)\<close> is kept symbolic as
  \<open>Stringified tokens\<close>;
  any other file content is \<open>Bytes\<close>. The field \<open>written\<close> lists the calls of
  \<open>writeFileSync\<close> that went through, oldest first. The process is taken to own what
  it touches: access checks on existing files and directories, a full disk and similar
  faults are outside the model.
\<close>

type_synonym path = string

type_synonym mode = "12 word"

datatype file_data = Stringified credentials | Bytes string

record file_entry =
  data :: file_data
  perm :: mode

record filesystem =
  dirs :: "path \<rightharpoonup> mode"
  files :: "path \<rightharpoonup> file_entry"
  umask :: mode
  written :: "(path \<times> file_data) list"

definition existsSync :: "filesystem \<Rightarrow> path \<Rightarrow> bool" where
  "existsSync fs p = (dirs fs p \<noteq> None \<or> files fs p \<noteq> None)"

text \<open>The directory itself and every prefix of it that ends before a later \<open>/\<close>.\<close>

definition ancestors :: "path \<Rightarrow> path list" where
  "ancestors d = map (\<lambda>i. take i d) (filter (\<lambda>i. d ! i = CHR ''/'') [1..<length d]) @ [d]"

text \<open>
  A recursive \<open>mkdir\<close> creates each missing directory on the way with mode
  \<open>0o777 & ~umask\<close>, and fails where a regular file is in the way.
\<close>

definition make_dir :: "mode \<Rightarrow> (path \<rightharpoonup> mode) \<Rightarrow> path \<Rightarrow> (path \<rightharpoonup> mode)" where
  "make_dir v m a = (if m a = None then m(a \<mapsto> v) else m)"

definition mkdirSync_recursive :: "filesystem \<Rightarrow> path \<Rightarrow> string + filesystem" where
  "mkdirSync_recursive fs d =
     (if list_ex (\<lambda>a. files fs a \<noteq> None) (ancestors d) then Inl ''ENOTDIR''
      else Inr (fs\<lparr>dirs := foldl (make_dir (511 AND NOT (umask fs))) (dirs fs) (ancestors d)\<rparr>))"

text \<open>The last component of a path: what follows its last \<open>/\<close>.\<close>

definition base_name :: "path \<Rightarrow> path" where
  "base_name p = drop (nat (lastIndexOf p CHR ''/'' + 1)) p"

text \<open>
  \<open>writeFileSync\<close> opens with flag \<open>w\<close> and the default mode \<open>0o666\<close>. It fails when the
  path is empty, when the path names a directory (its last component is empty, that is
  the path ends in a slash, or is \<open>.\<close> or \<open>..\<close>, or the target is a directory), and
  when the containing directory does not exist (an empty containing directory is the
  root or the working directory). Otherwise it creates a missing file with mode
  \<open>0o666 & ~umask\<close> and replaces the data of an existing one, whose mode stays.
\<close>

definition writeFileSync :: "filesystem \<Rightarrow> path \<Rightarrow> file_data \<Rightarrow> string + filesystem" where
  "writeFileSync fs p d =
     (let parent = substring0 p (lastIndexOf p CHR ''/'')
      in if p = [] then Inl ''ENOENT''
         else if base_name p = [] \<or> base_name p = ''.'' \<or> base_name p = ''..''
                 \<or> dirs fs p \<noteq> None then Inl ''EISDIR''
         else if parent \<noteq> [] \<and> dirs fs parent = None then Inl ''ENOENT''
         else Inr (fs\<lparr>files := (files fs)(p \<mapsto>
                      \<lparr>data = d,
                       perm = (case files fs p of None \<Rightarrow> 438 AND NOT (umask fs)
                               | Some f \<Rightarrow> perm f)\<rparr>),
                    written := written fs @ [(p, d)]\<rparr>))"

text \<open>What \<open>JSON.parse(fs.readFileSync(path))\<close> gives back for a file this module wrote.\<close>

definition stored_record :: "filesystem \<Rightarrow> path \<Rightarrow> credentials option" where
  "stored_record fs p =
     (case files fs p of None \<Rightarrow> None
      | Some f \<Rightarrow> (case data f of Stringified c \<Rightarrow> Some c | Bytes b \<Rightarrow> None))"


subsection \<open>The process state shared by the operations\<close>

text \<open>\<open>oauth2Client.credentials\<close> and the disk.\<close>

record world =
  client :: "credentials option"
  disk :: filesystem

subsection \<open>refreshIfNeeded\<close>

datatype refresh_error = NoCredentials | RefreshTokenMissing | RefreshFailed string

definition expiryBuffer :: int where
  "expiryBuffer = 5 * 60 * 1000"

text \<open>The condition \<open>!expiryDate || Date.now() >= expiryDate - expiryBuffer\<close>.\<close>

definition needs_refresh :: "int \<Rightarrow> credentials \<Rightarrow> bool" where
  "needs_refresh now creds =
     (\<not> truthy_number (expiry_date creds)
      \<or> (case expiry_date creds of None \<Rightarrow> False | Some e \<Rightarrow> e - expiryBuffer \<le> now))"

text \<open>
  \<open>now\<close> is \<open>Date.now()\<close>. \<open>refreshAccessToken\<close> is the client library's call, given the
  credentials the client holds: \<open>Inl\<close> the message of the error it rejects with, \<open>Inr\<close>
  the credentials it resolves with. The result pairs what the function returns or throws
  with the state it leaves.
\<close>

definition refreshIfNeeded ::
  "int \<Rightarrow> (credentials \<Rightarrow> string + credentials) \<Rightarrow> path \<Rightarrow> world \<Rightarrow> (refresh_error + bool) \<times> world" where
  "refreshIfNeeded now refreshAccessToken credentialsPath w =
     (case client w of
        None \<Rightarrow> (Inl NoCredentials, w)
      | Some creds \<Rightarrow>
          if \<not> truthy_string (access_token creds) then (Inl NoCredentials, w)
          else if needs_refresh now creds then
            (if \<not> truthy_string (refresh_token creds) then (Inl RefreshTokenMissing, w)
             else (case refreshAccessToken creds of
                     Inl msg \<Rightarrow> (Inl (RefreshFailed msg), w)
                   | Inr newCredentials \<Rightarrow>
                       (let w1 = w\<lparr>client := Some newCredentials\<rparr>
                        in case writeFileSync (disk w1) credentialsPath (Stringified newCredentials) of
                             Inl msg \<Rightarrow> (Inl (RefreshFailed msg), w1)
                           | Inr d \<Rightarrow> (Inr True, w1\<lparr>disk := d\<rparr>))))
          else (Inr False, w))"

subsection \<open>findAvailablePort and isPortAvailable\<close>

text \<open>
  The network is the set of TCP ports that are bound. \<open>server.listen(port)\<close> fails on a
  bound port and binds a free one; \<open>server.close()\<close> releases it.
\<close>

type_synonym net = "nat set"

datatype port_error = NoAvailablePorts "nat list"

definition OAUTH_PORTS :: "nat list" where
  "OAUTH_PORTS = [3000, 3001, 3002]"

definition listen :: "net \<Rightarrow> nat \<Rightarrow> string + net" where
  "listen n p = (if p \<in> n then Inl ''EADDRINUSE'' else Inr (insert p n))"

definition close_server :: "net \<Rightarrow> nat \<Rightarrow> net" where
  "close_server n p = n - {p}"

definition isPortAvailable :: "net \<Rightarrow> nat \<Rightarrow> bool \<times> net" where
  "isPortAvailable n p =
     (case listen n p of Inl e \<Rightarrow> (False, n) | Inr n' \<Rightarrow> (True, close_server n' p))"

text \<open>The \<open>for\<close> loop of \<open>findAvailablePort\<close> over the ports that are left to try.\<close>

fun findAvailablePort_loop :: "nat list \<Rightarrow> nat list \<Rightarrow> net \<Rightarrow> (port_error + nat) \<times> net" where
  "findAvailablePort_loop all [] n = (Inl (NoAvailablePorts all), n)"
| "findAvailablePort_loop all (p # ps) n =
     (case isPortAvailable n p of
        (True, n') \<Rightarrow> (Inr p, n')
      | (False, n') \<Rightarrow> findAvailablePort_loop all ps n')"

definition findAvailablePort_of :: "nat list \<Rightarrow> net \<Rightarrow> (port_error + nat) \<times> net" where
  "findAvailablePort_of ports n = findAvailablePort_loop ports ports n"

definition findAvailablePort :: "net \<Rightarrow> (port_error + nat) \<times> net" where
  "findAvailablePort n = findAvailablePort_of OAUTH_PORTS n"

subsection \<open>authenticate\<close>

text \<open>
  The errors \<open>authenticate\<close> rejects with, one constructor for each \<open>new Error(...)\<close> of
  the source (with the text it interpolates) and one for an error event of the server.
\<close>

datatype auth_error =
    PortInUse nat
  | AuthTimeout
  | AuthCancelled string
  | NoCodeProvided
  | ExchangeFailed string
  | ServerFault string

record response =
  status :: nat
  body :: string

text \<open>
  The state of one call once the server listens: the process state, the variables
  \<open>isResolved\<close> and \<open>timeoutId\<close> (is the timer still set), whether the server still
  accepts connections, the calls made so far to \<open>resolve\<close> (\<open>None\<close>) and \<open>reject\<close>
  (\<open>Some\<close> error) of the returned promise, oldest first, and the authorization codes whose
  \<open>getToken\<close> call has not settled yet.
\<close>

record session = world +
  isResolved :: bool
  timeoutActive :: bool
  serverListening :: bool
  settled :: "auth_error option list"
  awaiting :: "string list"

text \<open>Interpolation of a value that may be \<open>null\<close> into a template literal.\<close>

definition js_string :: "string option \<Rightarrow> string" where
  "js_string v = (case v of None \<Rightarrow> ''null'' | Some s \<Rightarrow> s)"

text \<open>
  \<open>server.listen(port)\<close> at the start of \<open>authenticate\<close>, then the timer is set and the
  handlers are registered.
\<close>

definition authenticate_begin :: "net \<Rightarrow> nat \<Rightarrow> world \<Rightarrow> auth_error + session" where
  "authenticate_begin n port w =
     (case listen n port of
        Inl e \<Rightarrow> Inl (PortInUse port)
      | Inr n' \<Rightarrow> Inr \<lparr>client = client w, disk = disk w, isResolved = False,
                       timeoutActive = True, serverListening = True, settled = [],
                       awaiting = []\<rparr>)"

text \<open>The helper \<open>cleanup(error, success)\<close>.\<close>

definition cleanup :: "auth_error option \<Rightarrow> session \<Rightarrow> session" where
  "cleanup error s =
     (if isResolved s then s
      else s\<lparr>isResolved := True, timeoutActive := False, serverListening := False,
             settled := settled s @ [error]\<rparr>)"

text \<open>
  The request handler up to its \<open>await\<close>. \<open>req.url\<close> may be undefined. The handler either
  answers at once, or it has called \<open>getToken(code)\<close> and waits: then there is no response
  yet and the code joins \<open>awaiting\<close>.
\<close>

definition on_request :: "string option \<Rightarrow> session \<Rightarrow> response option \<times> session" where
  "on_request url s =
     (case url of
        None \<Rightarrow> (Some \<lparr>status = 404, body = ''Not found''\<rparr>, s)
      | Some u \<Rightarrow>
          if \<not> startsWith u ''/oauth2callback''
          then (Some \<lparr>status = 404, body = ''Not found''\<rparr>, s)
          else (let error = searchParams_get u ''error''
                in if truthy_string error
                   then (Some \<lparr>status = 400,
                               body = ''Authentication was cancelled or failed: '' @ js_string error\<rparr>,
                         cleanup (Some (AuthCancelled (js_string error))) s)
                   else (let code = searchParams_get u ''code''
                         in if \<not> truthy_string code
                            then (Some \<lparr>status = 400, body = ''No authorization code provided''\<rparr>,
                                  cleanup (Some NoCodeProvided) s)
                            else (None, s\<lparr>awaiting := awaiting s @ [js_string code]\<rparr>))))"

text \<open>The page sent after a grant (the line breaks and indentation of the source left out).\<close>

definition successPage :: string where
  "successPage = ''<html><body style=\"font-family: sans-serif; text-align: center; padding-top: 50px;\"><h1>Authentication Successful!</h1><p>You can close this window and return to the terminal.</p></body></html>''"

text \<open>
  The rest of the handler, run when \<open>getToken\<close> settles: \<open>Inl\<close> the message of the
  rejection, \<open>Inr\<close> the tokens. Everything that can throw here is inside the \<open>try\<close>, and
  the \<open>catch\<close> answers 500 and calls \<open>cleanup\<close> with the error.
\<close>

definition on_getToken_settled :: "path \<Rightarrow> string + credentials \<Rightarrow> session \<Rightarrow> response \<times> session" where
  "on_getToken_settled credentialsPath r s =
     (case r of
        Inl msg \<Rightarrow>
          (\<lparr>status = 500, body = ''Authentication failed: '' @ msg\<rparr>,
           cleanup (Some (ExchangeFailed msg)) s)
      | Inr tokens \<Rightarrow>
          (let s1 = s\<lparr>client := Some tokens\<rparr>;
               dir = substring0 credentialsPath (lastIndexOf credentialsPath CHR ''/'')
           in case (if dir \<noteq> [] \<and> \<not> existsSync (disk s1) dir
                    then mkdirSync_recursive (disk s1) dir else Inr (disk s1)) of
                Inl msg \<Rightarrow>
                  (\<lparr>status = 500, body = ''Authentication failed: '' @ msg\<rparr>,
                   cleanup (Some (ExchangeFailed msg)) s1)
              | Inr d1 \<Rightarrow>
                  (case writeFileSync d1 credentialsPath (Stringified tokens) of
                     Inl msg \<Rightarrow>
                       (\<lparr>status = 500, body = ''Authentication failed: '' @ msg\<rparr>,
                        cleanup (Some (ExchangeFailed msg)) (s1\<lparr>disk := d1\<rparr>))
                   | Inr d2 \<Rightarrow>
                       (\<lparr>status = 200, body = successPage\<rparr>,
                        cleanup None (s1\<lparr>disk := d2\<rparr>)))))"

text \<open>
  What the event loop can deliver to a listening session: a request, the deadline timer,
  the settling of the \<open>i\<close>-th outstanding \<open>getToken\<close> call, an error event of the server.
  Calls can settle in any order; an index with no outstanding call delivers nothing.
  The handlers stay registered after \<open>cleanup\<close> (\<open>server.close()\<close> stops new connections
  only, a request on an open connection is still served), so every event is let through
  in every state; a timer event after \<open>clearTimeout\<close>, which Node never delivers, is
  harmless here because \<open>cleanup\<close> ignores it.
\<close>

datatype event =
    Request "string option"
  | DeadlineFires
  | GetTokenSettles nat "string + credentials"
  | ServerError string

definition step :: "path \<Rightarrow> event \<Rightarrow> session \<Rightarrow> response option \<times> session" where
  "step credentialsPath ev s =
     (case ev of
        Request url \<Rightarrow> on_request url s
      | DeadlineFires \<Rightarrow> (None, cleanup (Some AuthTimeout) s)
      | GetTokenSettles i r \<Rightarrow>
          if i < length (awaiting s)
          then (let (resp, s') = on_getToken_settled credentialsPath r
                                   (s\<lparr>awaiting := take i (awaiting s) @ drop (Suc i) (awaiting s)\<rparr>)
                in (Some resp, s'))
          else (None, s)
      | ServerError e \<Rightarrow> (None, cleanup (Some (ServerFault e)) s))"

fun run :: "path \<Rightarrow> event list \<Rightarrow> session \<Rightarrow> session" where
  "run credentialsPath [] s = s"
| "run credentialsPath (ev # evs) s = run credentialsPath evs (snd (step credentialsPath ev s))"

text \<open>
  How the promise returned by \<open>authenticate\<close> stands: \<open>None\<close> while it is pending,
  \<open>Some None\<close> once resolved, \<open>Some (Some e)\<close> once rejected with \<open>e\<close>. Only the first call
  of \<open>resolve\<close> or \<open>reject\<close> counts.
\<close>

definition authenticate_outcome :: "session \<Rightarrow> auth_error option option" where
  "authenticate_outcome s = (case settled s of [] \<Rightarrow> None | r # rs \<Rightarrow> Some r)"

subsection \<open>Concrete inputs\<close>

text \<open>
  A credential path under the configuration directory of the server, a stored record
  with a refresh token, an exchange response without one, a refreshed record, two disks
  (one where the configuration directory and the credential file exist, the file readable
  by its owner only; one where neither exists), both with the usual umask \<open>0o022\<close>, and
  the session \<open>authenticate\<close> starts from on port 3000. Further a library call that
  rejects the refresh, a disk where a regular file stands where the home directory
  should be, a disk where a regular file stands where the configuration directory should
  be, and a credential path that ends in a slash.
\<close>

definition ex_path :: path where
  "ex_path = ''/home/u/.safe-gmail-mcp/credentials.json''"

definition ex_stored :: credentials where
  "ex_stored = \<lparr>access_token = Some ''A0'', refresh_token = Some ''R0'',
                 expiry_date = Some 1000000, scope = Some ''gmail.modify'',
                 token_type = Some ''Bearer''\<rparr>"

definition ex_granted :: credentials where
  "ex_granted = \<lparr>access_token = Some ''A1'', refresh_token = None,
                  expiry_date = Some 9000000, scope = Some ''gmail.modify'',
                  token_type = Some ''Bearer''\<rparr>"

definition ex_refreshed :: credentials where
  "ex_refreshed = \<lparr>access_token = Some ''A2'', refresh_token = Some ''R0'',
                    expiry_date = Some 4600000, scope = Some ''gmail.modify'',
                    token_type = Some ''Bearer''\<rparr>"

definition ex_refreshAccessToken :: "credentials \<Rightarrow> string + credentials" where
  "ex_refreshAccessToken creds = Inr ex_refreshed"

definition ex_rejectedRefresh :: "credentials \<Rightarrow> string + credentials" where
  "ex_rejectedRefresh creds = Inl ''invalid_grant''"

definition ex_disk :: filesystem where
  "ex_disk = \<lparr>dirs = [''/home'' \<mapsto> 493, ''/home/u'' \<mapsto> 493, ''/home/u/.safe-gmail-mcp'' \<mapsto> 448],
               files = [ex_path \<mapsto> \<lparr>data = Stringified ex_stored, perm = 384\<rparr>],
               umask = 18, written = []\<rparr>"

definition ex_bare_disk :: filesystem where
  "ex_bare_disk = \<lparr>dirs = [''/home'' \<mapsto> 493, ''/home/u'' \<mapsto> 493],
                    files = Map.empty, umask = 18, written = []\<rparr>"




definition ex_session :: session where
  "ex_session = \<lparr>client = Some ex_stored, disk = ex_disk, isResolved = False,
                  timeoutActive = True, serverListening = True, settled = [],
                  awaiting = []\<rparr>"




subsection \<open>Auxiliary notions for the properties\<close>

text \<open>
  The shape every session has from \<open>authenticate_begin\<close> on: while \<open>isResolved\<close> is unset
  the promise has not been settled, the timer is set and the server listens; once it is
  set the promise has been settled by exactly one call, the timer is cleared and the
  server is closed.
\<close>

definition well_formed :: "session \<Rightarrow> bool" where
  "well_formed s =
     (if isResolved s
      then length (settled s) = 1 \<and> \<not> timeoutActive s \<and> \<not> serverListening s
      else settled s = [] \<and> timeoutActive s \<and> serverListening s)"

text \<open>The event is a \<open>getToken\<close> call resolving with tokens.\<close>

definition delivers_tokens :: "event \<Rightarrow> bool" where
  "delivers_tokens ev =
     (case ev of GetTokenSettles i r \<Rightarrow> (case r of Inl msg \<Rightarrow> False | Inr tokens \<Rightarrow> True)
      | _ \<Rightarrow> False)"




section \<open>Properties\<close>

subsection \<open>The port selector\<close>

lemma isPortAvailable_eq: "isPortAvailable n p = (p \<notin> n, n)"
  by (simp add: isPortAvailable_def listen_def close_server_def)

lemma findAvailablePort_loop_bound:
  "set ps \<subseteq> n \<Longrightarrow> findAvailablePort_loop all ps n = (Inl (NoAvailablePorts all), n)"
  by (induction ps) (simp_all add: isPortAvailable_eq)

lemma findAvailablePort_loop_first:
  "set pre \<subseteq> n \<Longrightarrow> p \<notin> n \<Longrightarrow> findAvailablePort_loop all (pre @ p # post) n = (Inr p, n)"
  by (induction pre) (simp_all add: isPortAvailable_eq)

lemma first_free_split:
  "\<exists>p \<in> set ps. p \<notin> n \<Longrightarrow> \<exists>pre p post. ps = pre @ p # post \<and> set pre \<subseteq> n \<and> p \<notin> n"
proof (induction ps)
  case Nil
  then show ?case by simp
next
  case (Cons a ps)
  show ?case
  proof (cases "a \<in> n")
    case False
    then have "a # ps = [] @ a # ps \<and> set [] \<subseteq> n \<and> a \<notin> n" by simp
    then show ?thesis by blast
  next
    case True
    with Cons.prems have "\<exists>p \<in> set ps. p \<notin> n" by auto
    then obtain pre p post where "ps = pre @ p # post" "set pre \<subseteq> n" "p \<notin> n"
      using Cons.IH by blast
    with True have "a # ps = (a # pre) @ p # post \<and> set (a # pre) \<subseteq> n \<and> p \<notin> n" by simp
    then show ?thesis by blast
  qed
qed

text \<open>
  Claim C7. The port selector probes the candidates in list order. When some candidate
  is free, it returns the first free one: every candidate before it in the list is bound.
  When every candidate is bound, it fails with the no-port error. In both cases the set
  of bound ports is afterwards what it was before: each probe released what it bound.
\<close>

theorem findAvailablePort_first_fit:
  "((\<exists>p \<in> set ports. p \<notin> n) \<longrightarrow>
      (\<exists>pre p post. ports = pre @ p # post \<and> set pre \<subseteq> n \<and> p \<notin> n
         \<and> findAvailablePort_of ports n = (Inr p, n)))
   \<and> (set ports \<subseteq> n \<longrightarrow> findAvailablePort_of ports n = (Inl (NoAvailablePorts ports), n))"
proof (intro conjI impI)
  assume "\<exists>p \<in> set ports. p \<notin> n"
  from first_free_split [OF this]
  obtain pre p post where s: "ports = pre @ p # post" and b: "set pre \<subseteq> n" and f: "p \<notin> n"
    by (elim exE conjE)
  have "findAvailablePort_loop ports (pre @ p # post) n = (Inr p, n)"
    using b f by (rule findAvailablePort_loop_first)
  then have "findAvailablePort_of ports n = (Inr p, n)"
    unfolding findAvailablePort_of_def by (simp only: s [symmetric])
  with s b f show "\<exists>pre p post. ports = pre @ p # post \<and> set pre \<subseteq> n \<and> p \<notin> n
         \<and> findAvailablePort_of ports n = (Inr p, n)" by (intro exI conjI)
next
  assume "set ports \<subseteq> n"
  then show "findAvailablePort_of ports n = (Inl (NoAvailablePorts ports), n)"
    unfolding findAvailablePort_of_def by (rule findAvailablePort_loop_bound)
qed

theorem findAvailablePort_first_fit_witness:
  "findAvailablePort {3000, 3002} = (Inr 3001, {3000, 3002})
   \<and> findAvailablePort {3000, 3001, 3002, 8080}
       = (Inl (NoAvailablePorts [3000, 3001, 3002]), {3000, 3001, 3002, 8080})"
proof
  have free: "\<exists>p \<in> set OAUTH_PORTS. p \<notin> {3000, 3002::nat}"
    by (simp add: OAUTH_PORTS_def)
  from findAvailablePort_first_fit [of OAUTH_PORTS "{3000, 3002}", THEN conjunct1, THEN mp, OF free]
  obtain pre p post where s: "OAUTH_PORTS = pre @ p # post" and f: "p \<notin> {3000, 3002::nat}"
    and r: "findAvailablePort_of OAUTH_PORTS {3000, 3002} = (Inr p, {3000, 3002})"
    by (elim exE conjE)
  have "p \<in> set (pre @ p # post)" by simp
  then have "p \<in> set OAUTH_PORTS" by (simp only: s)
  then have "p = 3000 \<or> p = 3001 \<or> p = 3002" by (simp add: OAUTH_PORTS_def)
  with f have "p = 3001" by auto
  with r show "findAvailablePort {3000, 3002} = (Inr 3001, {3000, 3002})"
    by (simp only: findAvailablePort_def)
next
  have bound: "set OAUTH_PORTS \<subseteq> {3000, 3001, 3002, 8080::nat}"
    by (simp add: OAUTH_PORTS_def)
  from findAvailablePort_first_fit [of OAUTH_PORTS "{3000, 3001, 3002, 8080}", THEN conjunct2, THEN mp, OF bound]
  show "findAvailablePort {3000, 3001, 3002, 8080}
       = (Inl (NoAvailablePorts [3000, 3001, 3002]), {3000, 3001, 3002, 8080})"
    by (simp only: findAvailablePort_def OAUTH_PORTS_def)
qed

subsection \<open>The refresh gate\<close>

lemma needs_refresh_iff:
  "needs_refresh now c \<longleftrightarrow>
     (case expiry_date c of None \<Rightarrow> True | Some e \<Rightarrow> e = 0 \<or> e - 300000 \<le> now)"
  by (auto simp: needs_refresh_def truthy_number_def expiryBuffer_def split: option.splits)

lemma writeFileSync_written:
  "writeFileSync fs p d = Inr fs' \<Longrightarrow> written fs' = written fs @ [(p, d)]"
  by (auto simp: writeFileSync_def Let_def split: if_splits)

lemma writeFileSync_stored:
  "writeFileSync fs p (Stringified c) = Inr fs' \<Longrightarrow> stored_record fs' p = Some c"
  by (auto simp: writeFileSync_def Let_def stored_record_def split: if_splits)

text \<open>
  Claim C3, amended. For a client that holds a record with an access token: with a clock
  that is not before the epoch, the record is judged to need a refresh exactly when its
  \<open>expiry_date\<close> is absent or \<open>now\<close> has reached \<open>expiry_date\<close> minus five minutes
  (300000 ms), the bound included. When no refresh is needed the function returns
  \<open>false\<close> and leaves the client and the disk as they were, so nothing is written. When
  a refresh is needed and a refresh token is present, the outcome follows the exchange:
  if it gives a record and the file can be written, the function returns \<open>true\<close> and the
  disk it leaves is the disk after one \<open>writeFileSync\<close> of that record (the list of
  writes grew by exactly this one and the file holds the refreshed record); if the
  exchange is rejected, the function fails with the refresh error and client and disk
  are unchanged; if the write fails, it fails with the refresh error, the client holds
  the new record and the disk is unchanged.
\<close>

theorem refreshIfNeeded_policy:
  assumes "client w = Some c" and "truthy_string (access_token c)"
  shows "(0 \<le> now \<longrightarrow>
            (needs_refresh now c \<longleftrightarrow>
               expiry_date c = None \<or> (\<exists>e. expiry_date c = Some e \<and> e - 300000 \<le> now)))
       \<and> (\<not> needs_refresh now c \<longrightarrow>
            refreshIfNeeded now refreshAccessToken credentialsPath w = (Inr False, w))
       \<and> (needs_refresh now c \<and> truthy_string (refresh_token c)
            \<and> refreshAccessToken c = Inr newCredentials
            \<and> writeFileSync (disk w) credentialsPath (Stringified newCredentials) = Inr d \<longrightarrow>
            refreshIfNeeded now refreshAccessToken credentialsPath w
              = (Inr True, w\<lparr>client := Some newCredentials, disk := d\<rparr>)
            \<and> written d = written (disk w) @ [(credentialsPath, Stringified newCredentials)]
            \<and> stored_record d credentialsPath = Some newCredentials)
       \<and> (needs_refresh now c \<and> truthy_string (refresh_token c)
            \<and> refreshAccessToken c = Inl msg \<longrightarrow>
            refreshIfNeeded now refreshAccessToken credentialsPath w = (Inl (RefreshFailed msg), w))
       \<and> (needs_refresh now c \<and> truthy_string (refresh_token c)
            \<and> refreshAccessToken c = Inr newCredentials
            \<and> writeFileSync (disk w) credentialsPath (Stringified newCredentials) = Inl msg \<longrightarrow>
            refreshIfNeeded now refreshAccessToken credentialsPath w
              = (Inl (RefreshFailed msg), w\<lparr>client := Some newCredentials\<rparr>))"
proof (intro conjI impI)
  assume "0 \<le> now"
  then show "needs_refresh now c \<longleftrightarrow>
            expiry_date c = None \<or> (\<exists>e. expiry_date c = Some e \<and> e - 300000 \<le> now)"
    by (auto simp: needs_refresh_iff split: option.splits)
next
  assume "\<not> needs_refresh now c"
  with assms show "refreshIfNeeded now refreshAccessToken credentialsPath w = (Inr False, w)"
    by (simp add: refreshIfNeeded_def)
next
  assume h: "needs_refresh now c \<and> truthy_string (refresh_token c)
            \<and> refreshAccessToken c = Inr newCredentials
            \<and> writeFileSync (disk w) credentialsPath (Stringified newCredentials) = Inr d"
  with assms show "refreshIfNeeded now refreshAccessToken credentialsPath w
              = (Inr True, w\<lparr>client := Some newCredentials, disk := d\<rparr>)"
    by (simp add: refreshIfNeeded_def)
  from h have wr: "writeFileSync (disk w) credentialsPath (Stringified newCredentials) = Inr d"
    by (elim conjE)
  from wr show "written d = written (disk w) @ [(credentialsPath, Stringified newCredentials)]"
    by (rule writeFileSync_written)
  from wr show "stored_record d credentialsPath = Some newCredentials"
    by (rule writeFileSync_stored)
next
  assume "needs_refresh now c \<and> truthy_string (refresh_token c)
            \<and> refreshAccessToken c = Inl msg"
  with assms show "refreshIfNeeded now refreshAccessToken credentialsPath w
      = (Inl (RefreshFailed msg), w)"
    by (simp add: refreshIfNeeded_def)
next
  assume "needs_refresh now c \<and> truthy_string (refresh_token c)
            \<and> refreshAccessToken c = Inr newCredentials
            \<and> writeFileSync (disk w) credentialsPath (Stringified newCredentials) = Inl msg"
  with assms show "refreshIfNeeded now refreshAccessToken credentialsPath w
              = (Inl (RefreshFailed msg), w\<lparr>client := Some newCredentials\<rparr>)"
    by (simp add: refreshIfNeeded_def)
qed

text \<open>
  Claim C8. Without an access token (no credentials object, no \<open>access_token\<close>, or an
  empty one) the function fails with the no-credentials error. With an access token, a
  record that needs a refresh and has no refresh token makes it fail with the
  refresh-token-missing error. Both failures leave the client and the disk unchanged, so
  nothing is written.
\<close>

theorem refreshIfNeeded_failures:
  "((client w = None \<or> (\<exists>c. client w = Some c \<and> \<not> truthy_string (access_token c))) \<longrightarrow>
      refreshIfNeeded now refreshAccessToken credentialsPath w = (Inl NoCredentials, w))
   \<and> ((\<exists>c. client w = Some c \<and> truthy_string (access_token c) \<and> needs_refresh now c
            \<and> \<not> truthy_string (refresh_token c)) \<longrightarrow>
      refreshIfNeeded now refreshAccessToken credentialsPath w = (Inl RefreshTokenMissing, w))"
  by (auto simp: refreshIfNeeded_def)


lemma ex_disk_write:
  "\<exists>d. writeFileSync ex_disk ex_path (Stringified ex_refreshed) = Inr d"
  by (simp add: writeFileSync_def ex_disk_def ex_path_def substring0_def base_name_def)

lemma ex_stored_facts:
  "truthy_string (access_token ex_stored)"
  "truthy_string (refresh_token ex_stored)"
  "expiry_date ex_stored = Some 1000000"
  by (simp_all add: truthy_string_def ex_stored_def)

lemma ex_stored_stale: "needs_refresh 800000 ex_stored"
  by (simp add: needs_refresh_def truthy_number_def expiryBuffer_def ex_stored_facts)

lemma ex_bare_write:
  "writeFileSync ex_bare_disk ex_path d = Inl ''ENOENT''"
  by (simp add: writeFileSync_def ex_bare_disk_def ex_path_def substring0_def base_name_def)

text \<open>
  Against claim C3 as stated: the record has an access token and a refresh token and
  needs a refresh, the library rejects the exchange, and the function throws the refresh
  error without having written anything.
\<close>

theorem rejected_refresh_writes_nothing:
  "truthy_string (access_token ex_stored)
   \<and> needs_refresh 800000 ex_stored
   \<and> truthy_string (refresh_token ex_stored)
   \<and> refreshIfNeeded 800000 ex_rejectedRefresh ex_path \<lparr>client = Some ex_stored, disk = ex_disk\<rparr>
       = (Inl (RefreshFailed ''invalid_grant''), \<lparr>client = Some ex_stored, disk = ex_disk\<rparr>)
   \<and> written ex_disk = []"
  by (simp add: ex_stored_facts ex_stored_stale refreshIfNeeded_def ex_rejectedRefresh_def
      ex_disk_def)

theorem refreshIfNeeded_policy_witness:
  "fst (refreshIfNeeded 800000 ex_refreshAccessToken ex_path \<lparr>client = Some ex_stored, disk = ex_disk\<rparr>)
     = Inr True
   \<and> written (disk (snd (refreshIfNeeded 800000 ex_refreshAccessToken ex_path
                           \<lparr>client = Some ex_stored, disk = ex_disk\<rparr>)))
     = [(ex_path, Stringified ex_refreshed)]
   \<and> refreshIfNeeded 100000 ex_refreshAccessToken ex_path \<lparr>client = Some ex_stored, disk = ex_disk\<rparr>
     = (Inr False, \<lparr>client = Some ex_stored, disk = ex_disk\<rparr>)
   \<and> needs_refresh 700000 ex_stored \<and> \<not> needs_refresh 699999 ex_stored
   \<and> refreshIfNeeded 800000 ex_rejectedRefresh ex_path \<lparr>client = Some ex_stored, disk = ex_disk\<rparr>
     = (Inl (RefreshFailed ''invalid_grant''), \<lparr>client = Some ex_stored, disk = ex_disk\<rparr>)
   \<and> refreshIfNeeded 800000 ex_refreshAccessToken ex_path \<lparr>client = Some ex_stored, disk = ex_bare_disk\<rparr>
     = (Inl (RefreshFailed ''ENOENT''), \<lparr>client = Some ex_refreshed, disk = ex_bare_disk\<rparr>)"
proof -
  let ?w = "\<lparr>client = Some ex_stored, disk = ex_disk\<rparr>"
  let ?wb = "\<lparr>client = Some ex_stored, disk = ex_bare_disk\<rparr>"
  let ?rat = "ex_refreshAccessToken"
  have c: "client ?w = Some ex_stored" by simp
  have cb: "client ?wb = Some ex_stored" by simp
  note a = ex_stored_facts(1)
  note r = ex_stored_facts(2)
  note e = ex_stored_facts(3)
  obtain d where d: "writeFileSync (disk ?w) ex_path (Stringified ex_refreshed) = Inr d"
    using ex_disk_write by auto
  have w0: "written (disk ?w) = []" by (simp add: ex_disk_def)
  have ok: "?rat ex_stored = Inr ex_refreshed" by (simp add: ex_refreshAccessToken_def)
  have no: "ex_rejectedRefresh ex_stored = Inl ''invalid_grant''"
    by (simp add: ex_rejectedRefresh_def)
  have wb: "writeFileSync (disk ?wb) ex_path (Stringified ex_refreshed) = Inl ''ENOENT''"
    by (simp add: ex_bare_write)
  have clock: "(0::int) \<le> 800000" "(0::int) \<le> 100000" "(0::int) \<le> 700000" "(0::int) \<le> 699999"
    by simp_all
  note stale = refreshIfNeeded_policy [OF c a, of 800000 ?rat ex_path ex_refreshed d]
  note fresh = refreshIfNeeded_policy [OF c a, of 100000 ?rat ex_path ex_refreshed d]
  note edge = refreshIfNeeded_policy [OF c a, of 700000 ?rat ex_path ex_refreshed d]
  note below = refreshIfNeeded_policy [OF c a, of 699999 ?rat ex_path ex_refreshed d]
  note rejected = refreshIfNeeded_policy
    [OF c a, of 800000 ex_rejectedRefresh ex_path _ _ "''invalid_grant''",
     THEN conjunct2, THEN conjunct2, THEN conjunct2, THEN conjunct1]
  note unwritable = refreshIfNeeded_policy
    [OF cb a, of 800000 ?rat ex_path ex_refreshed _ "''ENOENT''",
     THEN conjunct2, THEN conjunct2, THEN conjunct2, THEN conjunct2]
  have n1: "needs_refresh 800000 ex_stored"
    using stale [THEN conjunct1, THEN mp, OF clock(1)] e by simp
  have n2: "\<not> needs_refresh 100000 ex_stored"
    using fresh [THEN conjunct1, THEN mp, OF clock(2)] e by simp
  have n3: "needs_refresh 700000 ex_stored"
    using edge [THEN conjunct1, THEN mp, OF clock(3)] e by simp
  have n4: "\<not> needs_refresh 699999 ex_stored"
    using below [THEN conjunct1, THEN mp, OF clock(4)] e by simp
  from stale [THEN conjunct2, THEN conjunct2, THEN conjunct1] n1 r d w0 ok
  have s1: "refreshIfNeeded 800000 ?rat ex_path ?w = (Inr True, ?w\<lparr>client := Some ex_refreshed, disk := d\<rparr>)"
    and s2: "written d = [(ex_path, Stringified ex_refreshed)]"
    by simp_all
  from fresh [THEN conjunct2, THEN conjunct1] n2
  have f1: "refreshIfNeeded 100000 ?rat ex_path ?w = (Inr False, ?w)"
    by simp
  from rejected n1 r no
  have x1: "refreshIfNeeded 800000 ex_rejectedRefresh ex_path ?w
              = (Inl (RefreshFailed ''invalid_grant''), ?w)"
    by simp
  from unwritable n1 r ok wb
  have x2: "refreshIfNeeded 800000 ?rat ex_path ?wb
              = (Inl (RefreshFailed ''ENOENT''), \<lparr>client = Some ex_refreshed, disk = ex_bare_disk\<rparr>)"
    by simp
  show ?thesis
    by (simp add: s1 s2 f1 n3 n4 x1 x2)
qed

theorem refreshIfNeeded_failures_witness:
  "refreshIfNeeded 800000 ex_refreshAccessToken ex_path \<lparr>client = None, disk = ex_disk\<rparr>
     = (Inl NoCredentials, \<lparr>client = None, disk = ex_disk\<rparr>)
   \<and> refreshIfNeeded 800000 ex_refreshAccessToken ex_path
        \<lparr>client = Some (ex_stored\<lparr>access_token := Some []\<rparr>), disk = ex_disk\<rparr>
     = (Inl NoCredentials, \<lparr>client = Some (ex_stored\<lparr>access_token := Some []\<rparr>), disk = ex_disk\<rparr>)
   \<and> refreshIfNeeded 800000 ex_refreshAccessToken ex_path
        \<lparr>client = Some (ex_stored\<lparr>refresh_token := None\<rparr>), disk = ex_disk\<rparr>
     = (Inl RefreshTokenMissing, \<lparr>client = Some (ex_stored\<lparr>refresh_token := None\<rparr>), disk = ex_disk\<rparr>)"
proof -
  let ?rat = "ex_refreshAccessToken"
  have 1: "refreshIfNeeded 800000 ?rat ex_path \<lparr>client = None, disk = ex_disk\<rparr>
     = (Inl NoCredentials, \<lparr>client = None, disk = ex_disk\<rparr>)"
    using refreshIfNeeded_failures [of "\<lparr>client = None, disk = ex_disk\<rparr>" 800000 ?rat ex_path]
    by simp
  have 2: "refreshIfNeeded 800000 ?rat ex_path
        \<lparr>client = Some (ex_stored\<lparr>access_token := Some []\<rparr>), disk = ex_disk\<rparr>
     = (Inl NoCredentials, \<lparr>client = Some (ex_stored\<lparr>access_token := Some []\<rparr>), disk = ex_disk\<rparr>)"
    using refreshIfNeeded_failures
      [of "\<lparr>client = Some (ex_stored\<lparr>access_token := Some []\<rparr>), disk = ex_disk\<rparr>" 800000 ?rat ex_path]
    by (simp add: truthy_string_def)
  have 3: "refreshIfNeeded 800000 ?rat ex_path
        \<lparr>client = Some (ex_stored\<lparr>refresh_token := None\<rparr>), disk = ex_disk\<rparr>
     = (Inl RefreshTokenMissing, \<lparr>client = Some (ex_stored\<lparr>refresh_token := None\<rparr>), disk = ex_disk\<rparr>)"
    using refreshIfNeeded_failures
      [of "\<lparr>client = Some (ex_stored\<lparr>refresh_token := None\<rparr>), disk = ex_disk\<rparr>" 800000 ?rat ex_path]
    by (simp add: truthy_string_def ex_stored_def needs_refresh_def truthy_number_def expiryBuffer_def)
  from 1 2 3 show ?thesis by (intro conjI)
qed


subsection \<open>Sessions: what every step keeps\<close>

lemma cleanup_resolved: "isResolved s \<Longrightarrow> cleanup e s = s"
  by (simp add: cleanup_def)

lemma cleanup_fields:
  "isResolved (cleanup e s)"
  "disk (cleanup e s) = disk s"
  "client (cleanup e s) = client s"
  "awaiting (cleanup e s) = awaiting s"
  "settled (cleanup e s) = (if isResolved s then settled s else settled s @ [e])"
  by (simp_all add: cleanup_def)

lemma well_formed_cleanup: "well_formed s \<Longrightarrow> well_formed (cleanup e s)"
  by (simp add: well_formed_def cleanup_def)

lemma well_formed_begin: "authenticate_begin n port w = Inr s \<Longrightarrow> well_formed s"
  by (auto simp: authenticate_begin_def well_formed_def split: sum.splits)

lemma well_formed_other_fields:
  "well_formed (s\<lparr>awaiting := a\<rparr>) = well_formed s"
  "well_formed (s\<lparr>client := c\<rparr>) = well_formed s"
  "well_formed (s\<lparr>disk := d\<rparr>) = well_formed s"
  by (simp_all add: well_formed_def)

lemma well_formed_on_request: "well_formed s \<Longrightarrow> well_formed (snd (on_request url s))"
  by (simp add: on_request_def Let_def well_formed_cleanup well_formed_other_fields
      split: option.splits)

lemma well_formed_on_getToken_settled:
  "well_formed s \<Longrightarrow> well_formed (snd (on_getToken_settled p r s))"
  by (simp add: on_getToken_settled_def Let_def well_formed_cleanup well_formed_other_fields
      split: sum.splits)

lemma well_formed_step: "well_formed s \<Longrightarrow> well_formed (snd (step p ev s))"
  by (cases ev)
    (simp_all add: step_def well_formed_on_request well_formed_on_getToken_settled
      well_formed_cleanup well_formed_other_fields split_beta)

lemma well_formed_run: "well_formed s \<Longrightarrow> well_formed (run p evs s)"
  by (induction evs arbitrary: s) (simp_all add: well_formed_step)

lemma resolved_on_request:
  "isResolved s \<Longrightarrow> snd (on_request url s) = s \<or>
     (\<exists>c. snd (on_request url s) = s\<lparr>awaiting := awaiting s @ [c]\<rparr>)"
  by (auto simp: on_request_def Let_def cleanup_resolved split: option.splits)

lemma on_request_keeps:
  "disk (snd (on_request url s)) = disk s"
  "client (snd (on_request url s)) = client s"
  by (simp_all add: on_request_def Let_def cleanup_fields split: option.splits)

lemma resolved_on_request_keeps:
  assumes "isResolved s"
  shows "isResolved (snd (on_request url s))"
    and "settled (snd (on_request url s)) = settled s"
    and "timeoutActive (snd (on_request url s)) = timeoutActive s"
    and "serverListening (snd (on_request url s)) = serverListening s"
  using resolved_on_request [OF assms, of url] assms by auto

lemma resolved_on_getToken_settled_keeps:
  assumes "isResolved s"
  shows "isResolved (snd (on_getToken_settled p r s))"
    and "settled (snd (on_getToken_settled p r s)) = settled s"
    and "timeoutActive (snd (on_getToken_settled p r s)) = timeoutActive s"
    and "serverListening (snd (on_getToken_settled p r s)) = serverListening s"
  using assms
  by (simp_all add: on_getToken_settled_def Let_def cleanup_def split: sum.splits)

lemma failed_getToken_keeps:
  "disk (snd (on_getToken_settled p (Inl msg) s)) = disk s"
  "client (snd (on_getToken_settled p (Inl msg) s)) = client s"
  by (simp_all add: on_getToken_settled_def cleanup_fields)

lemma resolved_step_keeps:
  assumes "isResolved s"
  shows "isResolved (snd (step p ev s)) \<and> settled (snd (step p ev s)) = settled s
       \<and> timeoutActive (snd (step p ev s)) = timeoutActive s
       \<and> serverListening (snd (step p ev s)) = serverListening s"
proof (cases ev)
  case (Request url)
  then show ?thesis using resolved_on_request_keeps [OF assms] by (simp add: step_def)
next
  case DeadlineFires
  then show ?thesis using assms by (simp add: step_def cleanup_resolved)
next
  case (GetTokenSettles i r)
  have "isResolved (s\<lparr>awaiting := take i (awaiting s) @ drop (Suc i) (awaiting s)\<rparr>)"
    using assms by simp
  from resolved_on_getToken_settled_keeps [OF this, of p r] GetTokenSettles assms
  show ?thesis by (simp add: step_def split_beta)
next
  case (ServerError e)
  then show ?thesis using assms by (simp add: step_def cleanup_resolved)
qed

lemma quiet_step_keeps:
  "\<not> delivers_tokens ev \<Longrightarrow>
     disk (snd (step p ev s)) = disk s \<and> client (snd (step p ev s)) = client s"
proof (cases ev)
  case (GetTokenSettles i r)
  assume "\<not> delivers_tokens ev"
  with GetTokenSettles obtain msg where "r = Inl msg"
    by (cases r) (simp_all add: delivers_tokens_def)
  with GetTokenSettles show ?thesis
    by (simp add: step_def split_beta failed_getToken_keeps)
qed (simp_all add: step_def on_request_keeps cleanup_fields)

lemma resolved_run_keeps:
  "isResolved s \<Longrightarrow>
     isResolved (run p evs s) \<and> settled (run p evs s) = settled s
     \<and> timeoutActive (run p evs s) = timeoutActive s
     \<and> serverListening (run p evs s) = serverListening s"
proof (induction evs arbitrary: s)
  case Nil
  then show ?case by simp
next
  case (Cons ev evs)
  from resolved_step_keeps [OF Cons.prems, of p ev]
  have k: "isResolved (snd (step p ev s))" "settled (snd (step p ev s)) = settled s"
    "timeoutActive (snd (step p ev s)) = timeoutActive s"
    "serverListening (snd (step p ev s)) = serverListening s" by simp_all
  from Cons.IH [OF k(1)] k show ?case by simp
qed

lemma quiet_run_keeps:
  "list_all (\<lambda>ev. \<not> delivers_tokens ev) evs \<Longrightarrow>
     disk (run p evs s) = disk s \<and> client (run p evs s) = client s"
proof (induction evs arbitrary: s)
  case Nil
  then show ?case by simp
next
  case (Cons ev evs)
  then have q: "\<not> delivers_tokens ev" and r: "list_all (\<lambda>ev. \<not> delivers_tokens ev) evs"
    by simp_all
  from Cons.IH [OF r, of "snd (step p ev s)"] quiet_step_keeps [OF q, of p s]
  show ?case by simp
qed

subsection \<open>The interactive session\<close>

lemma ex_session_begin:
  "authenticate_begin {} 3000 \<lparr>client = Some ex_stored, disk = ex_disk\<rparr> = Inr ex_session"
  by (simp add: authenticate_begin_def listen_def ex_session_def)

lemma ex_write_granted:
  "writeFileSync ex_disk ex_path (Stringified ex_granted) =
     Inr (ex_disk\<lparr>files := (files ex_disk)(ex_path \<mapsto> \<lparr>data = Stringified ex_granted, perm = 384\<rparr>),
                  written := [(ex_path, Stringified ex_granted)]\<rparr>)"
  by (simp add: writeFileSync_def ex_disk_def ex_path_def substring0_def base_name_def)

lemma ex_dir: "substring0 ex_path (lastIndexOf ex_path CHR ''/'') = ''/home/u/.safe-gmail-mcp''"
  by (simp add: ex_path_def substring0_def)

lemma ex_dir_exists: "existsSync ex_disk ''/home/u/.safe-gmail-mcp''"
  by (simp add: existsSync_def ex_disk_def)

lemma code_request:
  "searchParams_get ''/oauth2callback?code=abc'' ''error'' = None"
  "searchParams_get ''/oauth2callback?code=abc'' ''code'' = Some ''abc''"
  "startsWith ''/oauth2callback?code=abc'' ''/oauth2callback''"
  by (simp_all add: searchParams_get_def searchParams_def url_search_def parse_pair_def
      form_decode_def startsWith_def)

lemma ex_disk_written: "written ex_disk = []"
  by (simp add: ex_disk_def)

lemma ex_disk_file: "files ex_disk ex_path = Some \<lparr>data = Stringified ex_stored, perm = 384\<rparr>"
  by (simp add: ex_disk_def)

lemmas session_eval = step_def on_request_def on_getToken_settled_def cleanup_def
  authenticate_outcome_def stored_record_def truthy_string_def js_string_def Let_def

text \<open>
  Against claim C2 as stated: the deadline fires first and the session is rejected with
  the timeout error; a callback with a code that arrives afterwards is still exchanged,
  and when the exchange succeeds the tokens are written over the credential file.
\<close>

theorem late_callback_still_writes:
  "authenticate_begin {} 3000 \<lparr>client = Some ex_stored, disk = ex_disk\<rparr> = Inr ex_session
   \<and> isResolved (run ex_path [DeadlineFires] ex_session)
   \<and> authenticate_outcome (run ex_path [DeadlineFires] ex_session) = Some (Some AuthTimeout)
   \<and> written (disk (run ex_path [DeadlineFires] ex_session)) = []
   \<and> written (disk (run ex_path
        [DeadlineFires, Request (Some ''/oauth2callback?code=abc''), GetTokenSettles 0 (Inr ex_granted)]
        ex_session)) = [(ex_path, Stringified ex_granted)]
   \<and> stored_record (disk (run ex_path
        [DeadlineFires, Request (Some ''/oauth2callback?code=abc''), GetTokenSettles 0 (Inr ex_granted)]
        ex_session)) ex_path = Some ex_granted"
  by (simp add: ex_session_begin session_eval code_request ex_session_def ex_dir
      ex_dir_exists ex_write_granted ex_disk_written)


text \<open>
  Claim C2, amended. In a session started by \<open>authenticate\<close>, once \<open>isResolved\<close> is set
  the promise has been settled by exactly one call of \<open>resolve\<close> or \<open>reject\<close>, and whatever
  is delivered later (requests, the timer, settling exchanges, server errors) settles it
  no further and leaves its outcome, the cleared timer and the closed server as they are.
  A late timer does nothing at all. Handling a late request writes nothing; later events
  leave the disk and the client's credentials unchanged unless one of them is a
  \<open>getToken\<close> call resolving with tokens (a late callback that carried a code is still
  exchanged, and its tokens are then saved). The handler has no path on which an
  exception leaves it: its throwing calls are inside the \<open>try\<close>.
\<close>

theorem resolved_session_stays_resolved:
  assumes "authenticate_begin n port w = Inr s0" and "s = run p evs s0" and "isResolved s"
  shows "length (settled s) = 1
       \<and> settled (run p later s) = settled s
       \<and> authenticate_outcome (run p later s) = authenticate_outcome s
       \<and> isResolved (run p later s)
       \<and> \<not> timeoutActive (run p later s) \<and> \<not> serverListening (run p later s)
       \<and> step p DeadlineFires s = (None, s)
       \<and> disk (snd (step p (Request url) s)) = disk s
       \<and> client (snd (step p (Request url) s)) = client s
       \<and> (list_all (\<lambda>ev. \<not> delivers_tokens ev) later \<longrightarrow>
            disk (run p later s) = disk s \<and> client (run p later s) = client s)"
proof -
  have "well_formed s0" using assms(1) by (rule well_formed_begin)
  then have "well_formed s" unfolding assms(2) by (rule well_formed_run)
  with assms(3) have one: "length (settled s) = 1" and off: "\<not> timeoutActive s" "\<not> serverListening s"
    by (simp_all add: well_formed_def)
  note k = resolved_run_keeps [OF assms(3), of p later]
  have out: "authenticate_outcome (run p later s) = authenticate_outcome s"
    using k by (simp add: authenticate_outcome_def)
  have dl: "step p DeadlineFires s = (None, s)"
    using assms(3) by (simp add: step_def cleanup_resolved)
  have rq: "disk (snd (step p (Request url) s)) = disk s"
    "client (snd (step p (Request url) s)) = client s"
    by (simp_all add: step_def on_request_keeps)
  have quiet: "list_all (\<lambda>ev. \<not> delivers_tokens ev) later \<longrightarrow>
            disk (run p later s) = disk s \<and> client (run p later s) = client s"
    using quiet_run_keeps [of later p s] by blast
  from one off k out dl rq quiet show ?thesis by simp
qed


lemma denied_request:
  "searchParams_get ''/oauth2callback?error=access_denied'' ''error'' = Some ''access_denied''"
  "startsWith ''/oauth2callback?error=access_denied'' ''/oauth2callback''"
  by (simp_all add: searchParams_get_def searchParams_def url_search_def parse_pair_def
      form_decode_def startsWith_def)

theorem resolved_session_stays_resolved_witness:
  "settled (run ex_path [Request (Some ''/oauth2callback?error=access_denied''), DeadlineFires]
              (run ex_path [Request (Some ''/oauth2callback?error=access_denied'')] ex_session))
     = [Some (AuthCancelled ''access_denied'')]
   \<and> disk (run ex_path [Request (Some ''/oauth2callback?error=access_denied''), DeadlineFires]
              (run ex_path [Request (Some ''/oauth2callback?error=access_denied'')] ex_session))
     = ex_disk"
proof -
  let ?req = "Request (Some ''/oauth2callback?error=access_denied'')"
  let ?s = "run ex_path [?req] ex_session"
  have s: "?s = ex_session\<lparr>isResolved := True, timeoutActive := False, serverListening := False,
                            settled := [Some (AuthCancelled ''access_denied'')]\<rparr>"
    by (simp add: session_eval denied_request ex_session_def)
  have r: "isResolved ?s" unfolding s by simp
  have q: "list_all (\<lambda>ev. \<not> delivers_tokens ev) [?req, DeadlineFires]"
    by (simp add: delivers_tokens_def)
  from resolved_session_stays_resolved [OF ex_session_begin refl r, of "[?req, DeadlineFires]"] q
  have "settled (run ex_path [?req, DeadlineFires] ?s) = settled ?s"
    and "disk (run ex_path [?req, DeadlineFires] ?s) = disk ?s"
    by simp_all
  moreover have "settled ?s = [Some (AuthCancelled ''access_denied'')]" unfolding s by simp
  moreover have "disk ?s = ex_disk" unfolding s by (simp add: ex_session_def)
  ultimately show ?thesis by simp
qed

text \<open>
  Claim C4, amended. The handler tests the request target (path and query together) for
  the prefix \<open>/oauth2callback\<close>. A request without a target or with a target that lacks
  the prefix is answered 404 and the session, the client and the disk stay exactly as
  they were; a request whose target has the prefix is never answered 404 by the handler.
\<close>

theorem only_prefixed_requests_are_input:
  "((url = None \<or> (\<exists>u. url = Some u \<and> \<not> startsWith u ''/oauth2callback'')) \<longrightarrow>
      step p (Request url) s = (Some \<lparr>status = 404, body = ''Not found''\<rparr>, s))
   \<and> ((\<exists>u. url = Some u \<and> startsWith u ''/oauth2callback'') \<longrightarrow>
      fst (step p (Request url) s) \<noteq> Some \<lparr>status = 404, body = ''Not found''\<rparr>)"
  by (auto simp: step_def on_request_def Let_def split: if_splits)

theorem only_prefixed_requests_are_input_witness:
  "step ex_path (Request (Some ''/favicon.ico'')) ex_session
     = (Some \<lparr>status = 404, body = ''Not found''\<rparr>, ex_session)
   \<and> step ex_path (Request None) ex_session
     = (Some \<lparr>status = 404, body = ''Not found''\<rparr>, ex_session)
   \<and> fst (step ex_path (Request (Some ''/oauth2callback?code=abc'')) ex_session)
     \<noteq> Some \<lparr>status = 404, body = ''Not found''\<rparr>"
  using only_prefixed_requests_are_input [of "Some ''/favicon.ico''" ex_path ex_session]
    only_prefixed_requests_are_input [of None ex_path ex_session]
    only_prefixed_requests_are_input [of "Some ''/oauth2callback?code=abc''" ex_path ex_session]
  by (simp add: startsWith_def)

text \<open>
  Against claim C4 as stated: the path \<open>/oauth2callbackX\<close> is not the reserved path, yet
  the request is taken as a callback, answered 400 and ends the session as denied.
\<close>

theorem other_path_with_prefix_is_processed:
  "url_pathname ''/oauth2callbackX?error=access_denied'' = ''/oauth2callbackX''
   \<and> step ex_path (Request (Some ''/oauth2callbackX?error=access_denied'')) ex_session
     = (Some \<lparr>status = 400, body = ''Authentication was cancelled or failed: access_denied''\<rparr>,
        ex_session\<lparr>isResolved := True, timeoutActive := False, serverListening := False,
                    settled := [Some (AuthCancelled ''access_denied'')]\<rparr>)"
  by (simp add: url_pathname_def session_eval ex_session_def searchParams_get_def
      searchParams_def url_search_def parse_pair_def form_decode_def startsWith_def)










subsection \<open>Saving the record\<close>

lemma made_dirs_dom: "dom (foldl (make_dir v) m0 as) = dom m0 \<union> set as"
  by (induction as arbitrary: m0) (auto simp: make_dir_def)


lemma mkdirSync_recursive_result:
  assumes "mkdirSync_recursive fs d = Inr fs'"
  shows "files fs' = files fs" and "written fs' = written fs" and "umask fs' = umask fs"
    and "dom (dirs fs') = dom (dirs fs) \<union> set (ancestors d)"
proof -
  have e: "fs' = fs\<lparr>dirs := foldl (make_dir (511 AND NOT (umask fs))) (dirs fs) (ancestors d)\<rparr>"
    using assms by (simp add: mkdirSync_recursive_def split: if_splits)
  show "files fs' = files fs" and "written fs' = written fs" and "umask fs' = umask fs"
    by (simp_all add: e)
  show "dom (dirs fs') = dom (dirs fs) \<union> set (ancestors d)"
    by (simp add: e made_dirs_dom)
qed


lemma mkdirSync_recursive_succeeds:
  "\<not> list_ex (\<lambda>a. files fs a \<noteq> None) (ancestors d) \<Longrightarrow> \<exists>fs'. mkdirSync_recursive fs d = Inr fs'"
  by (simp add: mkdirSync_recursive_def)






lemma writeFileSync_result:
  assumes "writeFileSync fs p d = Inr fs'"
  shows "dirs fs' = dirs fs"
    and "files fs' p = Some \<lparr>data = d, perm = (case files fs p of None \<Rightarrow> 438 AND NOT (umask fs)
                                                 | Some f \<Rightarrow> perm f)\<rparr>"
    and "written fs' = written fs @ [(p, d)]"
  using assms
  by (auto simp: writeFileSync_def Let_def split: if_splits)




text \<open>What a 200 answer of the handler means.\<close>

lemma granted_unfold:
  assumes "on_getToken_settled p (Inr tokens) s = (r, s')" and "status r = 200"
  shows "\<exists>d1. (if substring0 p (lastIndexOf p CHR ''/'') \<noteq> []
                    \<and> \<not> existsSync (disk s) (substring0 p (lastIndexOf p CHR ''/''))
                then mkdirSync_recursive (disk s) (substring0 p (lastIndexOf p CHR ''/''))
                else Inr (disk s)) = Inr d1
              \<and> writeFileSync d1 p (Stringified tokens) = Inr (disk s')
              \<and> client s' = Some tokens"
  using assms
  by (auto simp: on_getToken_settled_def Let_def cleanup_fields split: sum.splits if_splits)

lemma granted_files_before:
  assumes "(if c then mkdirSync_recursive fs d else Inr fs) = Inr d1"
  shows "files d1 = files fs" and "written d1 = written fs" and "umask d1 = umask fs"
  using assms mkdirSync_recursive_result [of fs d d1]
  by (auto split: if_splits)

lemma granted_saved:
  assumes "on_getToken_settled p (Inr tokens) s = (r, s')" and "status r = 200"
  shows "stored_record (disk s') p = Some tokens"
    and "client s' = Some tokens"
    and "written (disk s') = written (disk s) @ [(p, Stringified tokens)]"
    and "files (disk s') p = Some \<lparr>data = Stringified tokens,
            perm = (case files (disk s) p of None \<Rightarrow> 438 AND NOT (umask (disk s))
                    | Some f \<Rightarrow> perm f)\<rparr>"
proof -
  from granted_unfold [OF assms] obtain d1 where
    m: "(if substring0 p (lastIndexOf p CHR ''/'') \<noteq> []
                    \<and> \<not> existsSync (disk s) (substring0 p (lastIndexOf p CHR ''/''))
                then mkdirSync_recursive (disk s) (substring0 p (lastIndexOf p CHR ''/''))
                else Inr (disk s)) = Inr d1"
    and w: "writeFileSync d1 p (Stringified tokens) = Inr (disk s')"
    and c: "client s' = Some tokens" by blast
  note b = granted_files_before [OF m]
  note a = writeFileSync_result [OF w]
  show "client s' = Some tokens" by (rule c)
  show "written (disk s') = written (disk s) @ [(p, Stringified tokens)]"
    using a(3) b(2) by simp
  show f: "files (disk s') p = Some \<lparr>data = Stringified tokens,
            perm = (case files (disk s) p of None \<Rightarrow> 438 AND NOT (umask (disk s))
                    | Some f \<Rightarrow> perm f)\<rparr>"
    using a(2) b(1,3) by (simp split: option.splits)
  show "stored_record (disk s') p = Some tokens"
    by (simp add: stored_record_def f)
qed

lemma step_granted:
  assumes "step p (GetTokenSettles i (Inr tokens)) s = (Some r, s')"
  shows "on_getToken_settled p (Inr tokens)
           (s\<lparr>awaiting := take i (awaiting s) @ drop (Suc i) (awaiting s)\<rparr>) = (r, s')"
  using assms by (auto simp: step_def split_beta split: if_splits)

lemma refreshed_unfold:
  assumes "refreshIfNeeded now refreshAccessToken p w = (Inr True, w')"
  shows "\<exists>creds newCredentials. client w = Some creds
           \<and> refreshAccessToken creds = Inr newCredentials
           \<and> writeFileSync (disk w) p (Stringified newCredentials) = Inr (disk w')
           \<and> client w' = Some newCredentials"
  using assms
  by (auto simp: refreshIfNeeded_def Let_def split: option.splits if_splits sum.splits)

text \<open>
  Claim C1, amended. After a grant that is answered 200, and after a refresh that returns
  \<open>true\<close>, the credential file holds exactly the record the client library's exchange call
  gave back (\<open>getToken\<close>, \<open>refreshAccessToken\<close>), written by one \<open>writeFileSync\<close>, and the
  client holds the same record. Neither path reads the previous file or merges anything
  from it into what it writes.
\<close>

theorem saved_record_is_exchange_response:
  "(step p (GetTokenSettles i (Inr tokens)) s = (Some r, s') \<and> status r = 200 \<longrightarrow>
       stored_record (disk s') p = Some tokens \<and> client s' = Some tokens
       \<and> written (disk s') = written (disk s) @ [(p, Stringified tokens)])
   \<and> (refreshIfNeeded now refreshAccessToken p w = (Inr True, w') \<longrightarrow>
       (\<exists>creds newCredentials. client w = Some creds
          \<and> refreshAccessToken creds = Inr newCredentials
          \<and> stored_record (disk w') p = Some newCredentials
          \<and> client w' = Some newCredentials
          \<and> written (disk w') = written (disk w) @ [(p, Stringified newCredentials)]))"
proof (intro conjI impI)
  assume h: "step p (GetTokenSettles i (Inr tokens)) s = (Some r, s') \<and> status r = 200"
  then have g: "on_getToken_settled p (Inr tokens)
           (s\<lparr>awaiting := take i (awaiting s) @ drop (Suc i) (awaiting s)\<rparr>) = (r, s')"
    and ok: "status r = 200"
    by (simp_all add: step_granted)
  from granted_saved [OF g ok]
  show "stored_record (disk s') p = Some tokens" and "client s' = Some tokens"
    and "written (disk s') = written (disk s) @ [(p, Stringified tokens)]"
    by simp_all
next
  assume "refreshIfNeeded now refreshAccessToken p w = (Inr True, w')"
  from refreshed_unfold [OF this] obtain creds newCredentials where
    c: "client w = Some creds" and x: "refreshAccessToken creds = Inr newCredentials"
    and wr: "writeFileSync (disk w) p (Stringified newCredentials) = Inr (disk w')"
    and c': "client w' = Some newCredentials" by blast
  note a = writeFileSync_result [OF wr]
  have "stored_record (disk w') p = Some newCredentials"
    by (simp add: stored_record_def a(2))
  with c x c' a(3)
  show "\<exists>creds newCredentials. client w = Some creds
          \<and> refreshAccessToken creds = Inr newCredentials
          \<and> stored_record (disk w') p = Some newCredentials
          \<and> client w' = Some newCredentials
          \<and> written (disk w') = written (disk w) @ [(p, Stringified newCredentials)]"
    by blast
qed


text \<open>
  Against claim C1 as stated: the stored record has the refresh token \<open>R0\<close>, the exchange
  response of a successful grant has none, and the record stored afterwards has none.
\<close>

theorem grant_without_refresh_token_drops_it:
  "refresh_token ex_granted = None
   \<and> map_option refresh_token (stored_record (disk ex_session) ex_path) = Some (Some ''R0'')
   \<and> authenticate_outcome (run ex_path
        [Request (Some ''/oauth2callback?code=abc''), GetTokenSettles 0 (Inr ex_granted)]
        ex_session) = Some None
   \<and> map_option refresh_token (stored_record (disk (run ex_path
        [Request (Some ''/oauth2callback?code=abc''), GetTokenSettles 0 (Inr ex_granted)]
        ex_session)) ex_path) = Some None"
  by (simp add: session_eval code_request ex_session_def ex_dir ex_dir_exists
      ex_write_granted ex_disk_written ex_disk_file)
    (simp add: ex_granted_def ex_stored_def)

lemma ex_refresh_result:
  "fst (refreshIfNeeded 800000 ex_refreshAccessToken ex_path
          \<lparr>client = Some ex_stored, disk = ex_disk\<rparr>) = Inr True"
proof -
  obtain d where "writeFileSync ex_disk ex_path (Stringified ex_refreshed) = Inr d"
    using ex_disk_write by blast
  then show ?thesis
    by (simp add: refreshIfNeeded_def Let_def truthy_string_def needs_refresh_def
        truthy_number_def expiryBuffer_def ex_stored_def ex_refreshAccessToken_def)
qed

lemma ex_grant_result:
  "fst (step ex_path (GetTokenSettles 0 (Inr ex_granted)) (ex_session\<lparr>awaiting := [''abc'']\<rparr>))
     = Some \<lparr>status = 200, body = successPage\<rparr>"
  by (simp add: session_eval ex_session_def ex_dir ex_dir_exists ex_write_granted)

theorem saved_record_is_exchange_response_witness:
  "stored_record (disk (snd (step ex_path (GetTokenSettles 0 (Inr ex_granted))
                               (ex_session\<lparr>awaiting := [''abc'']\<rparr>)))) ex_path
     = Some ex_granted
   \<and> stored_record (disk (snd (refreshIfNeeded 800000 ex_refreshAccessToken ex_path
                                 \<lparr>client = Some ex_stored, disk = ex_disk\<rparr>))) ex_path
     = Some ex_refreshed"
proof
  let ?st = "step ex_path (GetTokenSettles 0 (Inr ex_granted)) (ex_session\<lparr>awaiting := [''abc'']\<rparr>)"
  have e: "?st = (Some \<lparr>status = 200, body = successPage\<rparr>, snd ?st)"
    using ex_grant_result by (simp add: prod_eq_iff)
  have ok: "status \<lparr>status = 200, body = successPage\<rparr> = 200" by simp
  from saved_record_is_exchange_response
    [of ex_path 0 ex_granted "ex_session\<lparr>awaiting := [''abc'']\<rparr>"
        "\<lparr>status = 200, body = successPage\<rparr>" "snd ?st", THEN conjunct1, THEN mp, OF conjI [OF e ok]]
  show "stored_record (disk (snd ?st)) ex_path = Some ex_granted"
    by (elim conjE)
next
  let ?rf = "refreshIfNeeded 800000 ex_refreshAccessToken ex_path
               \<lparr>client = Some ex_stored, disk = ex_disk\<rparr>"
  have e: "?rf = (Inr True, snd ?rf)"
    using ex_refresh_result by (simp add: prod_eq_iff)
  from saved_record_is_exchange_response
    [where p = ex_path and now = 800000 and refreshAccessToken = ex_refreshAccessToken
       and w = "\<lparr>client = Some ex_stored, disk = ex_disk\<rparr>" and w' = "snd ?rf",
     THEN conjunct2, THEN mp, OF e]
  show "stored_record (disk (snd ?rf)) ex_path = Some ex_refreshed"
    by (auto simp: ex_refreshAccessToken_def)
qed

subsection \<open>Directories and file modes\<close>


































end
